theory Spec2Isabelle
  imports Complex_Main "HOL-Library.Sublist" "HOL-Library.Log_Nat"
begin

section \<open>Python values shared by the modules\<close>

text \<open>
  Exceptions are values. Every constructor below is a subclass of Python's
  \<^verbatim>\<open>Exception\<close>; the string is what \<^verbatim>\<open>str(e)\<close> gives.
  \<^verbatim>\<open>ValidationError\<close> is pydantic's, \<^verbatim>\<open>RetryError\<close> is tenacity's.
\<close>

datatype error =
    Exception string
  | ValueError string
  | EnvironmentError string
  | ValidationError string
  | IndexError string
  | ZeroDivisionError string
  | OverflowError string
  | RetryError string

fun str_error :: "error \<Rightarrow> string" where
  "str_error (Exception m) = m"
| "str_error (ValueError m) = m"
| "str_error (EnvironmentError m) = m"
| "str_error (ValidationError m) = m"
| "str_error (IndexError m) = m"
| "str_error (ZeroDivisionError m) = m"
| "str_error (OverflowError m) = m"
| "str_error (RetryError m) = m"

definition nl :: char where
  "nl = CHR 0x0A"

definition sp :: char where
  "sp = CHR '' ''"

text \<open>\<^verbatim>\<open>sep.join(xs)\<close>\<close>

fun py_join :: "string \<Rightarrow> string list \<Rightarrow> string" where
  "py_join sep [] = []"
| "py_join sep [x] = x"
| "py_join sep (x # y # ys) = x @ sep @ py_join sep (y # ys)"

text \<open>\<^verbatim>\<open>str(n)\<close> for an integer: decimal digits, a minus sign when negative.\<close>

definition digit_char :: "nat \<Rightarrow> char" where
  "digit_char d = char_of (48 + d)"

fun str_nat :: "nat \<Rightarrow> string" where
  "str_nat n = (if n < 10 then [digit_char n] else str_nat (n div 10) @ [digit_char (n mod 10)])"

definition str_int :: "int \<Rightarrow> string" where
  "str_int i = (if i < 0 then CHR ''-'' # str_nat (nat (- i)) else str_nat (nat i))"

text \<open>
  \<^verbatim>\<open>str.isspace\<close> on one character, for the ASCII range: space, tab, line feed,
  vertical tab, form feed, carriage return and the four separators 0x1C..0x1F.
\<close>

definition isspace :: "char \<Rightarrow> bool" where
  "isspace c = (c \<in> {CHR 0x20, CHR 0x09, CHR 0x0A, CHR 0x0B, CHR 0x0C, CHR 0x0D,
                      CHR 0x1C, CHR 0x1D, CHR 0x1E, CHR 0x1F})"

text \<open>
  \<^verbatim>\<open>s.split()\<close> with no separator: runs of whitespace separate the words and no
  empty word is produced. The first argument is the word being read.
\<close>

fun py_split_ws :: "string \<Rightarrow> string \<Rightarrow> string list" where
  "py_split_ws cur [] = (if cur = [] then [] else [cur])"
| "py_split_ws cur (c # cs) =
     (if isspace c then (if cur = [] then py_split_ws [] cs else cur # py_split_ws [] cs)
      else py_split_ws (cur @ [c]) cs)"

definition py_split :: "string \<Rightarrow> string list" where
  "py_split s = py_split_ws [] s"

text \<open>
  \<^verbatim>\<open>xs[s:e]\<close>: a negative index counts from the end, and both indices are clipped
  to the list.
\<close>

definition slice_index :: "nat \<Rightarrow> int \<Rightarrow> nat" where
  "slice_index n i = (if i < 0 then nat (max 0 (i + int n)) else min n (nat i))"

definition py_slice :: "'a list \<Rightarrow> int \<Rightarrow> int \<Rightarrow> 'a list" where
  "py_slice xs s e = (let a = slice_index (length xs) s; b = slice_index (length xs) e
                   in take (b - a) (drop a xs))"

text \<open>\<^verbatim>\<open>range(n)\<close>: empty when \<open>n \<le> 0\<close>.\<close>

definition py_range :: "int \<Rightarrow> int list" where
  "py_range n = map int [0..<nat n]"

subsection \<open>Floats\<close>

text \<open>
  A Python float is an IEEE 754 double: a finite value, given here by the rational
  number it denotes (the two zeros are not told apart), an infinity, or a NaN.
\<close>

datatype py_float = Finite rat | PosInf | NegInf | NaN

text \<open>\<open>pow2 e\<close> is \<open>2\<close> to the power \<open>e\<close>, for an integer \<open>e\<close>.\<close>

definition pow2 :: "int \<Rightarrow> rat" where
  "pow2 e = (if 0 \<le> e then 2 ^ nat e else 1 / 2 ^ nat (- e))"

text \<open>
  The binary exponent of a rational \<open>r \<noteq> 0\<close>: the \<open>e\<close> with
  \<open>2\<^sup>e \<le> \<bar>r\<bar> < 2\<^sup>e\<^sup>+\<^sup>1\<close>, from the bit lengths of numerator and denominator.
\<close>

definition binade :: "rat \<Rightarrow> int" where
  "binade r = (let (a, b) = quotient_of \<bar>r\<bar>; d = bitlen a - bitlen b
               in if pow2 d \<le> \<bar>r\<bar> then d else d - 1)"

definition round_half_even :: "rat \<Rightarrow> int" where
  "round_half_even x = (let f = \<lfloor>x\<rfloor>; d = x - of_int f
                        in if d < 1 / 2 then f
                           else if 1 / 2 < d then f + 1
                           else if even f then f else f + 1)"

text \<open>
  Rounding an exact result to the nearest double, ties to even. A double has 53
  significant bits and a least exponent of \<open>-1022\<close>, so the spacing of the doubles
  around \<open>r\<close> is \<open>2\<close> to the power \<open>max (binade r) (-1022) - 52\<close>; a result that
  rounds to \<open>2\<^sup>1\<^sup>0\<^sup>2\<^sup>4\<close> or beyond is an infinity.
\<close>

definition round_to_double :: "rat \<Rightarrow> py_float" where
  "round_to_double r =
     (if r = 0 then Finite 0
      else let quantum = pow2 (max (binade r) (- 1022) - 52);
               y = of_int (round_half_even (r / quantum)) * quantum
           in if pow2 1024 \<le> y then PosInf
              else if y \<le> - pow2 1024 then NegInf
              else Finite y)"

text \<open>\<^verbatim>\<open>a / b\<close> on floats; Python raises on a zero divisor.\<close>

definition float_div :: "py_float \<Rightarrow> py_float \<Rightarrow> error + py_float" where
  "float_div a b =
     (case b of
        Finite y \<Rightarrow>
          if y = 0 then Inl (ZeroDivisionError ''float division by zero'')
          else (case a of
                  Finite x \<Rightarrow> Inr (round_to_double (x / y))
                | PosInf \<Rightarrow> Inr (if 0 < y then PosInf else NegInf)
                | NegInf \<Rightarrow> Inr (if 0 < y then NegInf else PosInf)
                | NaN \<Rightarrow> Inr NaN)
      | NaN \<Rightarrow> Inr NaN
      | _ \<Rightarrow> (case a of Finite x \<Rightarrow> Inr (Finite 0) | _ \<Rightarrow> Inr NaN))"

text \<open>\<^verbatim>\<open>math.ceil(x)\<close>\<close>

definition math_ceil :: "py_float \<Rightarrow> error + int" where
  "math_ceil x =
     (case x of
        Finite y \<Rightarrow> Inr \<lceil>y\<rceil>
      | NaN \<Rightarrow> Inl (ValueError ''cannot convert float NaN to integer'')
      | _ \<Rightarrow> Inl (OverflowError ''cannot convert float infinity to integer''))"

section \<open>structured_output_model.py\<close>

record SceneDescription =
  image_description :: string
  video_description :: string

record ScriptAnalysis =
  scenes :: "SceneDescription list"

text \<open>
  \<^verbatim>\<open>split_script\<close>. The floor division raises \<^verbatim>\<open>ZeroDivisionError\<close> when
  \<open>num_parts = 0\<close>; Python's \<^verbatim>\<open>//\<close> rounds towards minus infinity, as \<open>div\<close> on
  \<open>int\<close> does.
\<close>

definition split_part :: "string list \<Rightarrow> int \<Rightarrow> int \<Rightarrow> int \<Rightarrow> string" where
  "split_part words words_per_part num_parts i =
     (let num_words = int (length words);
          start_index = i * words_per_part;
          end_index = (if i \<noteq> num_parts - 1 then start_index + words_per_part else num_words)
      in py_join [sp] (py_slice words start_index end_index))"

definition split_script :: "string \<Rightarrow> int \<Rightarrow> error + string list" where
  "split_script script num_parts =
     (let words = py_split script;
          num_words = int (length words)
      in if num_parts = 0 then Inl (ZeroDivisionError ''integer division or modulo by zero'')
         else let words_per_part = num_words div num_parts
              in Inr (map (split_part words words_per_part num_parts) (py_range num_parts)))"

text \<open>
  The structured-completion service of \<^verbatim>\<open>extract_descriptions\<close>: it receives the
  model name and the system and user messages and returns a parsed
  \<^verbatim>\<open>SceneDescription\<close> or raises.
\<close>

type_synonym scene_completion = "string \<Rightarrow> (string \<times> string) list \<Rightarrow> error + SceneDescription"

definition scene_system_message :: string where
  "scene_system_message =
     nl # ''    You are an AI assistant specialized in analyzing scripts and extracting descriptions for images and videos.''
     @ nl # ''    ''"

definition scene_user_message :: "nat \<Rightarrow> string \<Rightarrow> string" where
  "scene_user_message idx part =
     nl # ''        Analyze the following part of a script and provide an image and a video description that corresponds sequentially to the content. The image description should be 1-2 sentences (about 15 words). The video description should describe a suitable action for the image description.''
     @ nl # ''        Make sure the image and video description do not violate any ethical standards (even if the script content does so).''
     @ nl # nl # ''        Part '' @ str_int (int idx + 1) @ '' of the script:''
     @ nl # nl # ''        '' @ part
     @ nl # ''        ''"

text \<open>
  The loop of \<^verbatim>\<open>extract_descriptions\<close> over \<^verbatim>\<open>enumerate(script_parts)\<close>;
  \<open>acc\<close> is the list the source calls \<^verbatim>\<open>scenes\<close>.
\<close>

fun extract_loop :: "scene_completion \<Rightarrow> nat \<Rightarrow> string list \<Rightarrow> SceneDescription list
                       \<Rightarrow> error + SceneDescription list" where
  "extract_loop parse idx [] acc = Inr acc"
| "extract_loop parse idx (part # parts) acc =
     (case parse ''gpt-4o'' [(''system'', scene_system_message), (''user'', scene_user_message idx part)] of
        Inl e \<Rightarrow> Inl e
      | Inr scene_description \<Rightarrow> extract_loop parse (Suc idx) parts (acc @ [scene_description]))"

text \<open>
  \<^verbatim>\<open>extract_descriptions\<close>. Its first argument is the outcome of the constructor
  \<^verbatim>\<open>OpenAI()\<close>: the completion service, or the exception the constructor raises.
\<close>

definition extract_descriptions ::
  "error + scene_completion \<Rightarrow> string \<Rightarrow> int \<Rightarrow> error + ScriptAnalysis" where
  "extract_descriptions client script num_images =
     (case client of
        Inl e \<Rightarrow> Inl e
      | Inr parse \<Rightarrow>
          (case split_script script num_images of
             Inl e \<Rightarrow> Inl e
           | Inr script_parts \<Rightarrow>
               (case extract_loop parse 0 script_parts [] of
                  Inl e \<Rightarrow> Inl e
                | Inr acc \<Rightarrow> Inr \<lparr>scenes = acc\<rparr>)))"

section \<open>process\_video.py\<close>

text \<open>
  The collaborators of \<^verbatim>\<open>process_main_video\<close>: speech synthesis with upload
  (the construction of the model included), the file download, the duration probe, the
  client of the completion service, and everything after the
  scene-count check (image and video generation per scene, concatenation and audio
  muxing), which returns the path of the final video or raises.
  The probed duration is a Python float, and \<^verbatim>\<open>audio_duration / 5\<close> divides it by
  the float \<open>5.0\<close>.
\<close>

record video_services =
  generate_and_save_audio :: "string \<Rightarrow> error + string"
  download_file :: "string \<Rightarrow> error + unit"
  get_audio_duration :: "error + py_float"
  scene_client :: "error + scene_completion"
  render_scenes :: "SceneDescription list \<Rightarrow> error + string"

definition scene_mismatch :: "int \<Rightarrow> int \<Rightarrow> error" where
  "scene_mismatch n num_images =
     Exception (''Number of scenes ('' @ str_int n
                @ '') does not match the expected number of images ('' @ str_int num_images @ '')'')"

definition process_main_video :: "video_services \<Rightarrow> string \<Rightarrow> error + string" where
  "process_main_video sv script =
     (case generate_and_save_audio sv script of
        Inl e \<Rightarrow> Inl e
      | Inr audio_url \<Rightarrow>
     (case download_file sv audio_url of
        Inl e \<Rightarrow> Inl e
      | Inr _ \<Rightarrow>
     (case get_audio_duration sv of
        Inl e \<Rightarrow> Inl e
      | Inr audio_duration \<Rightarrow>
     (case float_div audio_duration (Finite 5) of
        Inl e \<Rightarrow> Inl e
      | Inr fifth \<Rightarrow>
     (case math_ceil fifth of
        Inl e \<Rightarrow> Inl e
      | Inr num_images \<Rightarrow>
          (case extract_descriptions (scene_client sv) script num_images of
             Inl (ValidationError ve) \<Rightarrow> Inl (Exception (''Script analysis failed: '' @ ve))
           | Inl e \<Rightarrow> Inl e
           | Inr script_analysis \<Rightarrow>
               if int (length (scenes script_analysis)) \<noteq> num_images
               then Inl (scene_mismatch (int (length (scenes script_analysis))) num_images)
               else render_scenes sv (scenes script_analysis)))))))"

section \<open>agentic\_rag.py\<close>

record SubQuestion =
  question :: string

record SubQuestions =
  questions :: "SubQuestion list"

record SubQuestionsEvent =
  questions :: "SubQuestion list"

record SubAnswerEvent =
  question :: string
  sub_answer :: string

record StopEvent =
  result :: string

text \<open>
  The structured-completion service of \<^verbatim>\<open>generate_sub_questions\<close>: model name and
  messages in, the parsed \<^verbatim>\<open>SubQuestions\<close> out, or an exception.
\<close>

type_synonym questions_completion = "string \<Rightarrow> (string \<times> string) list \<Rightarrow> error + SubQuestions"

definition system_message :: "int \<Rightarrow> string" where
  "system_message num_questions =
     ''You are an AI assistant that generates relevant philosophy based sub-questions to gather more information about a given topic. The questions should be distinct from one another and try to cover as much ground about the topic as possible. ''
     @ ''Generate exactly '' @ str_int num_questions @ '' clear and specific questions.''"

definition user_message :: "int \<Rightarrow> string \<Rightarrow> string" where
  "user_message num_questions query =
     ''Generate '' @ str_int num_questions @ '' sub-questions to gather more information about: '' @ query"

text \<open>
  \<^verbatim>\<open>generate_sub_questions\<close> returns the events passed to \<^verbatim>\<open>ctx.send_event\<close>, in
  order, and the event it returns itself.
\<close>

definition generate_sub_questions ::
  "questions_completion \<Rightarrow> int \<Rightarrow> string
     \<Rightarrow> error + (SubQuestionsEvent list \<times> SubQuestionsEvent)" where
  "generate_sub_questions parse num_questions query =
     (case parse ''gpt-4o'' [(''system'', system_message num_questions),
                             (''user'', user_message num_questions query)] of
        Inl e \<Rightarrow> Inl e
      | Inr parsed_response \<Rightarrow>
          let sub_questions = map SubQuestion.question (SubQuestions.questions parsed_response)
          in if int (length sub_questions) \<noteq> num_questions
             then Inl (ValueError (''Expected '' @ str_int num_questions @ '' sub-questions, but got ''
                                   @ str_int (int (length sub_questions))))
             else Inr (map (\<lambda>q. \<lparr>SubQuestionsEvent.questions = [\<lparr>SubQuestion.question = q\<rparr>]\<rparr>) sub_questions,
                       \<lparr>SubQuestionsEvent.questions = map (\<lambda>q. \<lparr>SubQuestion.question = q\<rparr>) sub_questions\<rparr>))"

text \<open>
  The retrieval service of \<^verbatim>\<open>query_llama_cloud\<close>: the body of the \<^verbatim>\<open>try\<close> block,
  from the query to \<^verbatim>\<open>str(response)\<close>, or the exception it raises.
  \<^verbatim>\<open>query_llama_cloud\<close> returns its result together with the queries it sent to the
  service. \<^verbatim>\<open>ev.questions[0]\<close> raises \<^verbatim>\<open>IndexError\<close> on an empty list, outside the
  \<^verbatim>\<open>try\<close> block.
\<close>

type_synonym query_engine = "string \<Rightarrow> error + string"

definition query_llama_cloud ::
  "query_engine \<Rightarrow> SubQuestionsEvent \<Rightarrow> (error + SubAnswerEvent) \<times> string list" where
  "query_llama_cloud engine ev =
     (case SubQuestionsEvent.questions ev of
        [] \<Rightarrow> (Inl (IndexError ''list index out of range''), [])
      | sq # _ \<Rightarrow>
          let query = SubQuestion.question sq
          in if query = []
             then (Inr \<lparr>question = ''Unknown Question'', sub_answer = ''Error: Empty query''\<rparr>, [])
             else (case engine query of
                     Inr response \<Rightarrow> (Inr \<lparr>question = query, sub_answer = response\<rparr>, [query])
                   | Inl e \<Rightarrow>
                       (Inr \<lparr>question = query,
                             sub_answer = ''Error querying LlamaCloud: '' @ str_error e\<rparr>, [query])))"



text \<open>
  Modelled from the spec: \<^verbatim>\<open>Context.collect_events\<close> belongs to the workflow
  framework and is not among the sources. The spec (4.3) gives it as a state machine:
  states Waiting (the answers so far) and Complete; an answer received while the count
  stays below N keeps the machine waiting; the N-th answer completes it and hands over
  the collected answers, in arrival order; after Complete nothing more is accepted.
\<close>

datatype Context = Waiting "SubAnswerEvent list" | Complete

datatype event_type = SubAnswerEventT

fun collect_events ::
  "Context \<Rightarrow> SubAnswerEvent \<Rightarrow> event_type list \<Rightarrow> SubAnswerEvent list option \<times> Context" where
  "collect_events Complete ev expected = (None, Complete)"
| "collect_events (Waiting buffer) ev expected =
     (if length (buffer @ [ev]) = length expected then (Some (buffer @ [ev]), Complete)
      else (None, Waiting (buffer @ [ev])))"

text \<open>The joined text of \<^verbatim>\<open>combine_answers\<close>.\<close>

definition combined_answer :: "SubAnswerEvent list \<Rightarrow> string" where
  "combined_answer res =
     py_join [nl, nl] (map (\<lambda>event. ''Q: '' @ question event @ nl # ''A: '' @ sub_answer event) res)"

definition combine_answers ::
  "int \<Rightarrow> Context \<Rightarrow> SubAnswerEvent \<Rightarrow> StopEvent option \<times> Context" where
  "combine_answers num_questions ctx ev =
     (case collect_events ctx ev (replicate (nat num_questions) SubAnswerEventT) of
        (None, ctx') \<Rightarrow> (None, ctx')
      | (Some res, ctx') \<Rightarrow> (Some \<lparr>result = combined_answer res\<rparr>, ctx'))"

text \<open>
  The answers of one run reach \<^verbatim>\<open>combine_answers\<close> one at a time; \<open>deliver\<close>
  feeds them in arrival order and lists what each call returned.
\<close>

fun deliver :: "int \<Rightarrow> Context \<Rightarrow> SubAnswerEvent list \<Rightarrow> StopEvent option list" where
  "deliver num_questions ctx [] = []"
| "deliver num_questions ctx (ev # evs) =
     (case combine_answers num_questions ctx ev of
        (out, ctx') \<Rightarrow> out # deliver num_questions ctx' evs)"

text \<open>
  \<^verbatim>\<open>process_query\<close>. Its collaborators: the environment variable, the two client
  constructors, and the run of the workflow (\<^verbatim>\<open>asyncio.run(run_workflow(...))\<close>),
  which returns the result of the stop event or raises.
\<close>

record query_services =
  getenv_api_key :: "string option"
  LlamaCloudIndex :: "string \<Rightarrow> error + unit"
  OpenAI :: "error + unit"
  run_workflow :: "int \<Rightarrow> string \<Rightarrow> error + string"

definition process_query :: "query_services \<Rightarrow> string \<Rightarrow> int \<Rightarrow> error + string" where
  "process_query sv user_query num_subquestions =
     (case getenv_api_key sv of
        None \<Rightarrow> Inl (EnvironmentError ''LLAMAINDEX_API_KEY environment variable is not set.'')
      | Some api_key \<Rightarrow>
          if api_key = []
          then Inl (EnvironmentError ''LLAMAINDEX_API_KEY environment variable is not set.'')
          else (case LlamaCloudIndex sv api_key of
                  Inl e \<Rightarrow> Inl e
                | Inr _ \<Rightarrow>
                    (case OpenAI sv of
                       Inl e \<Rightarrow> Inl e
                     | Inr _ \<Rightarrow>
                         (case run_workflow sv num_subquestions user_query of
                            Inr combined_result \<Rightarrow> Inr combined_result
                          | Inl e \<Rightarrow> Inr (''An error occurred during processing: '' @ str_error e)))))"

text \<open>
  The parser of the round-trip property, which the sources do not contain; it is written
  after the spec's words: the text is split at the blank-line separator, and each block
  at its \<^verbatim>\<open>"Q: "\<close> and \<^verbatim>\<open>"A: "\<close> markers. In Python:
  \<^verbatim>\<open>
  def parse_combined(text):
      if not text: return []
      pairs = []
      for block in text.split("\n\n"):
          if not block.startswith("Q: "): raise ValueError(block)
          q, a = block[3:].split("\nA: ", 1)
          pairs.append((q, a))
      return pairs
  \<close>
  \<open>py_split_sep\<close> is \<^verbatim>\<open>s.split(sep)\<close> for a non-empty separator, and
  \<open>py_split_once\<close> is \<^verbatim>\<open>s.split(sep, 1)\<close>, with \<open>None\<close> when the separator
  does not occur (the unpacking then raises).
\<close>

fun py_split_sep_from :: "string \<Rightarrow> string \<Rightarrow> string \<Rightarrow> string list" where
  "py_split_sep_from sep cur [] = [cur]"
| "py_split_sep_from sep cur (c # cs) =
     (if prefix sep (c # cs) then cur # py_split_sep_from sep [] (drop (length sep - 1) cs)
      else py_split_sep_from sep (cur @ [c]) cs)"

definition py_split_sep :: "string \<Rightarrow> string \<Rightarrow> string list" where
  "py_split_sep sep s = py_split_sep_from sep [] s"

fun py_split_once_from :: "string \<Rightarrow> string \<Rightarrow> string \<Rightarrow> (string \<times> string) option" where
  "py_split_once_from sep cur [] = None"
| "py_split_once_from sep cur (c # cs) =
     (if prefix sep (c # cs) then Some (cur, drop (length sep - 1) cs)
      else py_split_once_from sep (cur @ [c]) cs)"

definition py_split_once :: "string \<Rightarrow> string \<Rightarrow> (string \<times> string) option" where
  "py_split_once sep s = py_split_once_from sep [] s"

definition parse_block :: "string \<Rightarrow> (string \<times> string) option" where
  "parse_block block =
     (if prefix ''Q: '' block then py_split_once (nl # ''A: '') (drop 3 block) else None)"

definition parse_combined :: "string \<Rightarrow> (string \<times> string) list option" where
  "parse_combined text =
     (if text = [] then Some [] else those (map parse_block (py_split_sep [nl, nl] text)))"

definition answer_of :: "string \<times> string \<Rightarrow> SubAnswerEvent" where
  "answer_of p = \<lparr>question = fst p, sub_answer = snd p\<rparr>"

text \<open>
  A text is free of blank lines when every line feed in it is followed by a character
  other than a line feed; in particular it does not end with a line feed.
\<close>

fun no_blank_line :: "string \<Rightarrow> bool" where
  "no_blank_line [] = True"
| "no_blank_line [c] = (c \<noteq> nl)"
| "no_blank_line (c # d # cs) = ((c \<noteq> nl \<or> d \<noteq> nl) \<and> no_blank_line (d # cs))"

section \<open>img\_to\_video.py\<close>

record generation_status =
  state :: string
  failure_reason :: string
  assets_video :: string

record create_request =
  prompt :: "string option"
  frame0_url :: "string option"
  aspect_ratio :: string

text \<open>
  The client of the generation service. Its answers may change from one request to the
  next, so each operation also receives the number of requests of its kind made before:
  \<open>generations_get i id\<close> is the answer to the \<open>i\<close>-th status request, asked about
  generation \<open>id\<close>. \<^verbatim>\<open>failure_reason\<close> is the field as \<^verbatim>\<open>str\<close> renders it.
\<close>

record luma_client =
  generations_create :: "nat \<Rightarrow> create_request \<Rightarrow> error + string"
  generations_get :: "nat \<Rightarrow> string \<Rightarrow> error + generation_status"

definition MAX_ATTEMPTS :: int where
  "MAX_ATTEMPTS = 30"

definition POLL_INTERVAL :: int where
  "POLL_INTERVAL = 5"

text \<open>
  The state threaded through the calls: how many create and status requests were made,
  and the seconds slept.
\<close>

record luma_state =
  creates_made :: nat
  gets_made :: nat
  slept :: int

text \<open>
  The loop of \<^verbatim>\<open>poll_generation\<close>; the last argument counts the attempts that remain
  of \<^verbatim>\<open>range(max_attempts)\<close>.
\<close>

fun poll_loop :: "luma_client \<Rightarrow> string \<Rightarrow> int \<Rightarrow> luma_state \<Rightarrow> nat \<Rightarrow> (error + unit) \<times> luma_state" where
  "poll_loop client generation_id delay s 0 = (Inl (Exception ''Max attempts reached''), s)"
| "poll_loop client generation_id delay s (Suc remaining) =
     (let s1 = s\<lparr>gets_made := Suc (gets_made s)\<rparr>
      in case generations_get client (gets_made s) generation_id of
           Inl e \<Rightarrow> poll_loop client generation_id delay (s1\<lparr>slept := slept s1 + delay\<rparr>) remaining
         | Inr status \<Rightarrow>
             if state status = ''completed'' then (Inr (), s1)
             else if state status = ''failed''
             then (Inl (Exception (''Generation failed: '' @ failure_reason status)), s1)
             else poll_loop client generation_id delay (s1\<lparr>slept := slept s1 + delay\<rparr>) remaining)"

definition poll_generation ::
  "luma_client \<Rightarrow> string \<Rightarrow> int \<Rightarrow> int \<Rightarrow> luma_state \<Rightarrow> (error + unit) \<times> luma_state" where
  "poll_generation client generation_id max_attempts delay s =
     poll_loop client generation_id delay s (nat max_attempts)"

text \<open>
  The \<^verbatim>\<open>keyframes\<close> argument of \<^verbatim>\<open>generate_luma_video\<close>: the start image when
  \<^verbatim>\<open>start_image_url\<close> is truthy, and nothing otherwise.
\<close>

definition keyframes :: "string option \<Rightarrow> string option" where
  "keyframes start_image_url =
     (case start_image_url of
        None \<Rightarrow> None
      | Some url \<Rightarrow> if url = [] then None else Some url)"

text \<open>One call of the body of \<^verbatim>\<open>generate_luma_video\<close>, without the retry decorator.\<close>

definition generate_luma_video_body ::
  "luma_client \<Rightarrow> string option \<Rightarrow> string option \<Rightarrow> string \<Rightarrow> luma_state
     \<Rightarrow> (error + string) \<times> luma_state" where
  "generate_luma_video_body client prompt_arg start_image_url aspect s =
     (let s1 = s\<lparr>creates_made := Suc (creates_made s)\<rparr>
      in case generations_create client (creates_made s)
                \<lparr>prompt = prompt_arg, frame0_url = keyframes start_image_url,
                 aspect_ratio = aspect\<rparr> of
           Inl e \<Rightarrow> (Inl e, s1)
         | Inr generation_id \<Rightarrow>
             (case poll_generation client generation_id MAX_ATTEMPTS POLL_INTERVAL s1 of
                (Inl e, s2) \<Rightarrow> (Inl e, s2)
              | (Inr _, s2) \<Rightarrow>
                  (let s3 = s2\<lparr>gets_made := Suc (gets_made s2)\<rparr>
                   in case generations_get client (gets_made s2) generation_id of
                        Inl e \<Rightarrow> (Inl e, s3)
                      | Inr final_status \<Rightarrow>
                          if state final_status = ''completed''
                          then (Inr (assets_video final_status), s3)
                          else (Inl (Exception (''Generation failed with state: ''
                                                @ state final_status)), s3))))"

text \<open>
  The decorator \<^verbatim>\<open>@retry(stop=stop_after_attempt(n), wait=wait_fixed(w),
  retry=retry_if_exception_type(Exception))\<close>: the body is called again after an
  exception, \<open>w\<close> seconds later, and after the \<open>n\<close>-th failed call a
  \<^verbatim>\<open>RetryError\<close> is raised; it carries here the message of the last exception.
\<close>

fun retry :: "nat \<Rightarrow> int \<Rightarrow> (luma_state \<Rightarrow> (error + 'a) \<times> luma_state) \<Rightarrow> luma_state
                \<Rightarrow> (error + 'a) \<times> luma_state" where
  "retry 0 wait body s =
     (case body s of
        (Inr v, s1) \<Rightarrow> (Inr v, s1)
      | (Inl e, s1) \<Rightarrow> (Inl (RetryError (str_error e)), s1))"
| "retry (Suc n) wait body s =
     (case body s of
        (Inr v, s1) \<Rightarrow> (Inr v, s1)
      | (Inl e, s1) \<Rightarrow>
          if n = 0 then (Inl (RetryError (str_error e)), s1)
          else retry n wait body (s1\<lparr>slept := slept s1 + wait\<rparr>))"

definition generate_luma_video ::
  "luma_client \<Rightarrow> string option \<Rightarrow> string option \<Rightarrow> string \<Rightarrow> luma_state
     \<Rightarrow> (error + string) \<times> luma_state" where
  "generate_luma_video client prompt_arg start_image_url aspect s =
     retry 5 2 (generate_luma_video_body client prompt_arg start_image_url aspect) s"

section \<open>Auxiliary notions for the properties\<close>

text \<open>A word as \<^verbatim>\<open>str.split()\<close> produces it: not empty and free of whitespace.\<close>

definition word :: "string \<Rightarrow> bool" where
  "word w = (w \<noteq> [] \<and> (\<forall>c \<in> set w. \<not> isspace c))"

text \<open>
  An answer to a status request that keeps \<^verbatim>\<open>poll_generation\<close> polling: the request
  raised, or the state is neither "completed" nor "failed" (as "processing" is).
\<close>

definition pending :: "error + generation_status \<Rightarrow> bool" where
  "pending r = (case r of
                  Inl e \<Rightarrow> True
                | Inr status \<Rightarrow> state status \<noteq> ''completed'' \<and> state status \<noteq> ''failed'')"

text \<open>
  A test double of the generation service: every status request before the \<open>n\<close>-th
  reports "processing", every later one the given final state. \<open>fresh_state\<close> is the
  state before any request.
\<close>

definition mock_job :: "nat \<Rightarrow> string \<Rightarrow> luma_client" where
  "mock_job n final_state =
     \<lparr>generations_create = (\<lambda>i req. Inr ''gen-1''),
      generations_get = (\<lambda>i gid. Inr \<lparr>state = (if i < n then ''processing'' else final_state),
                                    failure_reason = ''content moderation'',
                                    assets_video = ''https://cdn/video.mp4''\<rparr>)\<rparr>"

definition fresh_state :: luma_state where
  "fresh_state = \<lparr>creates_made = 0, gets_made = 0, slept = 0\<rparr>"

text \<open>
  Test doubles of the collaborators of \<^verbatim>\<open>process_main_video\<close>: every call succeeds,
  the probe reports the given duration, and the path of the final video tells how many
  scenes were rendered.
\<close>

definition silent_services :: "py_float \<Rightarrow> video_services" where
  "silent_services d =
     \<lparr>generate_and_save_audio = (\<lambda>script. Inr ''https://cdn/audio.mp3''),
      download_file = (\<lambda>url. Inr ()),
      get_audio_duration = Inr d,
      scene_client = Inr (\<lambda>m ms. Inr \<lparr>image_description = ''a temple'', video_description = ''slow pan''\<rparr>),
      render_scenes = (\<lambda>scs. Inr (''data/final_video/final_'' @ str_int (int (length scs)) @ ''.mp4''))\<rparr>"

text \<open>The text \<^verbatim>\<open>combine_answers\<close> writes for one question and answer pair.\<close>

definition block :: "string \<times> string \<Rightarrow> string" where
  "block p = ''Q: '' @ fst p @ nl # ''A: '' @ snd p"




text \<open>The question strings carried by a list of sub-question events, in order.\<close>

definition emitted_questions :: "SubQuestionsEvent list \<Rightarrow> string list" where
  "emitted_questions sent = concat (map (\<lambda>ev. map SubQuestion.question (SubQuestionsEvent.questions ev)) sent)"

section \<open>Properties of split\_script\<close>

lemma split_ws_words:
  "\<forall>c \<in> set cur. \<not> isspace c \<Longrightarrow> w \<in> set (py_split_ws cur s) \<Longrightarrow> word w"
proof (induction s arbitrary: cur)
  case Nil
  then show ?case by (simp add: word_def split: if_splits)
next
  case (Cons a s)
  show ?case
  proof (cases "isspace a")
    case True
    with Cons.prems have "w = cur \<and> cur \<noteq> [] \<or> w \<in> set (py_split_ws [] s)"
      by (auto split: if_splits)
    then show ?thesis
      using Cons.IH [of "[]"] Cons.prems(1) by (auto simp: word_def)
  next
    case False
    with Cons.prems have "w \<in> set (py_split_ws (cur @ [a]) s)" by simp
    moreover from False Cons.prems(1) have "\<forall>c \<in> set (cur @ [a]). \<not> isspace c" by simp
    ultimately show ?thesis by (rule Cons.IH [rotated])
  qed
qed

lemma split_words: "w \<in> set (py_split s) \<Longrightarrow> word w"
  using split_ws_words [of "[]" w s] by (simp add: py_split_def)

lemma split_ws_append:
  "\<forall>c \<in> set w. \<not> isspace c \<Longrightarrow> py_split_ws cur (w @ rest) = py_split_ws (cur @ w) rest"
  by (induction w arbitrary: cur) auto

lemma isspace_sp: "isspace sp"
  by (simp add: isspace_def sp_def)

lemma split_word_sp: "word x \<Longrightarrow> py_split_ws [] (x @ sp # rest) = x # py_split_ws [] rest"
  using split_ws_append [of x "[]" "sp # rest"] by (simp add: word_def isspace_sp)

lemma split_word: "word x \<Longrightarrow> py_split_ws [] x = [x]"
  using split_ws_append [of x "[]" "[]"] by (simp add: word_def)

lemma split_join:
  "\<forall>w \<in> set ws. word w \<Longrightarrow> py_split (py_join [sp] ws) = ws"
proof (induction ws rule: induct_list012)
  case 1
  then show ?case by (simp add: py_split_def)
next
  case (2 x)
  then show ?case by (simp add: py_split_def split_word)
next
  case (3 x y ys)
  then show ?case by (simp add: py_split_def split_word_sp)
qed

lemma concat_chunks:
  "concat (map (\<lambda>i. take w (drop (i * w) xs)) [0..<k]) = take (k * w) xs"
proof (induction k)
  case 0
  then show ?case by simp
next
  case (Suc k)
  have "take (k * w) xs @ take w (drop (k * w) xs) = take (k * w + w) xs"
    by (simp add: take_add)
  with Suc show ?case by (simp add: add.commute)
qed


lemma slice_chunk:
  assumes "(i + 1) * w \<le> length xs"
  shows "py_slice xs (int i * int w) (int i * int w + int w) = take w (drop (i * w) xs)"
proof -
  have "slice_index (length xs) (int (i * w)) = i * w"
    using assms unfolding slice_index_def by (simp del: of_nat_mult of_nat_add)
  then have a: "slice_index (length xs) (int i * int w) = i * w" by simp
  have "int i * int w + int w = int ((i + 1) * w)" by (simp add: algebra_simps)
  then have b: "slice_index (length xs) (int i * int w + int w) = (i + 1) * w"
    using assms unfolding slice_index_def by (simp del: of_nat_mult of_nat_add)
  show ?thesis by (simp add: py_slice_def a b Let_def)
qed

lemma slice_rest:
  assumes "i * w \<le> length xs"
  shows "py_slice xs (int i * int w) (int (length xs)) = drop (i * w) xs"
proof -
  have "slice_index (length xs) (int (i * w)) = i * w"
    using assms unfolding slice_index_def by (simp del: of_nat_mult of_nat_add)
  then have a: "slice_index (length xs) (int i * int w) = i * w" by simp
  have b: "slice_index (length xs) (int (length xs)) = length xs"
    by (simp add: slice_index_def)
  show ?thesis by (simp add: py_slice_def a b Let_def)
qed

lemma split_script_parts:
  fixes script :: string and num_parts :: int
  assumes "1 \<le> num_parts"
  defines "ws \<equiv> py_split script"
  defines "m \<equiv> nat num_parts - 1"
  defines "w \<equiv> length ws div nat num_parts"
  shows "split_script script num_parts =
           Inr (map (\<lambda>i. py_join [sp] (take w (drop (i * w) ws))) [0..<m] @ [py_join [sp] (drop (m * w) ws)])"
proof -
  have n: "nat num_parts = Suc m"
    using assms(1) by (simp add: m_def)
  have n': "num_parts = int m + 1"
    using assms(1) by (simp add: m_def)
  have wpp: "int (length ws) div num_parts = int w"
    by (simp add: w_def n n' zdiv_int)
  have le: "m * w \<le> length ws"
  proof -
    have "m * w \<le> Suc m * (length ws div Suc m)" by (simp add: w_def n)
    also have "\<dots> \<le> length ws" by (rule times_div_less_eq_dividend)
    finally show ?thesis .
  qed
  have front: "split_part ws (int w) num_parts (int i) = py_join [sp] (take w (drop (i * w) ws))"
    if "i < m" for i
  proof -
    from that have "(i + 1) * w \<le> m * w" by (intro mult_le_mono1) simp
    with le have "(i + 1) * w \<le> length ws" by simp
    moreover from that have "int i \<noteq> num_parts - 1" by (simp add: n')
    ultimately show ?thesis by (simp add: split_part_def slice_chunk)
  qed
  have final: "split_part ws (int w) num_parts (int m) = py_join [sp] (drop (m * w) ws)"
    using le by (simp add: split_part_def n' slice_rest)
  have "map (split_part ws (int w) num_parts) (py_range num_parts) =
        map (\<lambda>i. split_part ws (int w) num_parts (int i)) [0..<m] @ [split_part ws (int w) num_parts (int m)]"
    by (simp add: py_range_def n o_def)
  also have "\<dots> = map (\<lambda>i. py_join [sp] (take w (drop (i * w) ws))) [0..<m] @ [py_join [sp] (drop (m * w) ws)]"
    using front final by simp
  finally show ?thesis
    using assms(1) by (simp add: split_script_def Let_def ws_def [symmetric] wpp)
qed

text \<open>
  C10: for every script and every \<open>num_parts \<ge> 1\<close>, \<^verbatim>\<open>split_script\<close> returns
  exactly \<open>num_parts\<close> strings; splitting each of them at whitespace and concatenating
  the words gives the words of the script, in order, none lost, duplicated or moved.
  When the script has fewer words than \<open>num_parts\<close>, all parts but the last are empty
  and the last carries all the words.
\<close>

theorem split_script_preserves_words:
  assumes "1 \<le> num_parts"
  shows "\<exists>parts. split_script script num_parts = Inr parts
           \<and> int (length parts) = num_parts
           \<and> concat (map py_split parts) = py_split script
           \<and> (int (length (py_split script)) < num_parts \<longrightarrow>
                parts = replicate (nat num_parts - 1) [] @ [py_join [sp] (py_split script)])"
proof -
  define ws where "ws = py_split script"
  define m where "m = nat num_parts - 1"
  define w where "w = length ws div nat num_parts"
  define parts where
    "parts = map (\<lambda>i. py_join [sp] (take w (drop (i * w) ws))) [0..<m] @ [py_join [sp] (drop (m * w) ws)]"
  have res: "split_script script num_parts = Inr parts"
    unfolding parts_def w_def m_def ws_def by (rule split_script_parts [OF assms])
  have len: "int (length parts) = num_parts"
    using assms by (simp add: parts_def m_def)
  have words: "\<forall>x \<in> set ws. word x"
    by (simp add: ws_def split_words)
  have chunk: "py_split (py_join [sp] (take w (drop (i * w) ws))) = take w (drop (i * w) ws)" for i
    using words by (intro split_join) (auto dest!: in_set_takeD in_set_dropD)
  have rest: "py_split (py_join [sp] (drop (m * w) ws)) = drop (m * w) ws"
    using words by (intro split_join) (auto dest!: in_set_dropD)
  have "concat (map py_split parts) =
        concat (map (\<lambda>i. take w (drop (i * w) ws)) [0..<m]) @ drop (m * w) ws"
    by (simp add: parts_def o_def chunk rest)
  also have "\<dots> = ws" by (simp add: concat_chunks)
  finally have cat: "concat (map py_split parts) = py_split script" by (simp add: ws_def)
  have few: "parts = replicate (nat num_parts - 1) [] @ [py_join [sp] (py_split script)]"
    if "int (length (py_split script)) < num_parts"
  proof -
    from that have "w = 0" by (simp add: w_def ws_def)
    then show ?thesis by (simp add: parts_def m_def ws_def map_replicate_const)
  qed
  from res len cat few show ?thesis by blast
qed

theorem split_script_preserves_words_witness:
  "(1::int) \<le> 3 \<and> (\<exists>parts. split_script ''a b'' 3 = Inr parts \<and> int (length parts) = 3
     \<and> concat (map py_split parts) = [''a'', ''b''] \<and> parts = [[], [], ''a b''])"
proof -
  have a: "split_script ''a b'' 3 = Inr [[], [], ''a b'']" by code_simp
  have b: "py_split ''a b'' = [''a'', ''b'']" by code_simp
  from split_script_preserves_words [of 3 "''a b''"] a b show ?thesis by simp
qed

section \<open>Properties of the sub-question generator\<close>

text \<open>
  C2: for every configured \<open>n\<close> and every response of the completion service, a
  number of parsed sub-questions other than \<open>n\<close> makes \<^verbatim>\<open>generate_sub_questions\<close>
  raise the count-mismatch \<^verbatim>\<open>ValueError\<close> (an error, not a placeholder value), and a
  number equal to \<open>n\<close> lets the step return its events.
\<close>

theorem generate_sub_questions_count_check:
  assumes "parse ''gpt-4o'' [(''system'', system_message n), (''user'', user_message n query)] = Inr response"
  shows "(int (length (SubQuestions.questions response)) \<noteq> n \<longrightarrow>
            generate_sub_questions parse n query =
              Inl (ValueError (''Expected '' @ str_int n @ '' sub-questions, but got ''
                               @ str_int (int (length (SubQuestions.questions response))))))
       \<and> (int (length (SubQuestions.questions response)) = n \<longrightarrow>
            (\<exists>sent batch. generate_sub_questions parse n query = Inr (sent, batch)))"
  using assms by (simp add: generate_sub_questions_def Let_def)

theorem generate_sub_questions_count_check_witness:
  "generate_sub_questions (\<lambda>m ms. Inr \<lparr>SubQuestions.questions = [\<lparr>SubQuestion.question = ''What is virtue?''\<rparr>]\<rparr>) 2 ''virtue''
     = Inl (ValueError ''Expected 2 sub-questions, but got 1'')
   \<and> (\<exists>sent batch. generate_sub_questions (\<lambda>m ms. Inr \<lparr>SubQuestions.questions = [\<lparr>SubQuestion.question = ''What is virtue?''\<rparr>]\<rparr>) 1 ''virtue''
     = Inr (sent, batch))"
proof -
  let ?parse = "\<lambda>(m::string) (ms::(string \<times> string) list). (Inr \<lparr>SubQuestions.questions = [\<lparr>SubQuestion.question = ''What is virtue?''\<rparr>]\<rparr> :: error + SubQuestions)"
  have s2: "str_int 2 = ''2''" and s1: "str_int 1 = ''1''" by code_simp+
  from generate_sub_questions_count_check [of ?parse 2 "''virtue''", OF refl]
       generate_sub_questions_count_check [of ?parse 1 "''virtue''", OF refl]
  show ?thesis by (simp add: s1 s2)
qed

text \<open>
  C8, as stated, asks for \<open>n\<close> pairwise distinct sub-questions. The step checks the
  count only: a response that repeats a question passes and is emitted as it is.
\<close>

theorem generate_sub_questions_duplicates:
  "generate_sub_questions
     (\<lambda>m ms. Inr \<lparr>SubQuestions.questions = [\<lparr>SubQuestion.question = ''What is virtue?''\<rparr>, \<lparr>SubQuestion.question = ''What is virtue?''\<rparr>]\<rparr>)
     2 ''virtue''
   = Inr ([\<lparr>SubQuestionsEvent.questions = [\<lparr>SubQuestion.question = ''What is virtue?''\<rparr>]\<rparr>,
           \<lparr>SubQuestionsEvent.questions = [\<lparr>SubQuestion.question = ''What is virtue?''\<rparr>]\<rparr>],
          \<lparr>SubQuestionsEvent.questions = [\<lparr>SubQuestion.question = ''What is virtue?''\<rparr>, \<lparr>SubQuestion.question = ''What is virtue?''\<rparr>]\<rparr>)
   \<and> \<not> distinct [''What is virtue?'', ''What is virtue?'']"
  by (simp add: generate_sub_questions_def Let_def)

text \<open>
  C8, amended: whenever the completion service returns exactly \<open>n\<close> parsed questions,
  the step emits exactly \<open>n\<close> events of one question each, carrying the parsed
  questions in the order of the response, and returns the same questions as one bundled
  event; the emitted questions are pairwise distinct exactly when the parsed ones are.
\<close>

theorem generate_sub_questions_emits_parsed:
  assumes "parse ''gpt-4o'' [(''system'', system_message n), (''user'', user_message n query)] = Inr response"
      and "int (length (SubQuestions.questions response)) = n"
  shows "\<exists>sent batch. generate_sub_questions parse n query = Inr (sent, batch)
           \<and> int (length sent) = n
           \<and> (\<forall>ev \<in> set sent. length (SubQuestionsEvent.questions ev) = 1)
           \<and> emitted_questions sent = map SubQuestion.question (SubQuestions.questions response)
           \<and> SubQuestionsEvent.questions batch = SubQuestions.questions response
           \<and> distinct (emitted_questions sent) = distinct (map SubQuestion.question (SubQuestions.questions response))"
proof -
  have "concat (map (\<lambda>q. [SubQuestion.question q]) qs) = map SubQuestion.question qs" for qs :: "SubQuestion list"
    by (induction qs) simp_all
  moreover have "map (\<lambda>x. \<lparr>SubQuestion.question = SubQuestion.question x\<rparr>) qs = qs" for qs :: "SubQuestion list"
    by (induction qs) simp_all
  ultimately show ?thesis
    using assms by (simp add: generate_sub_questions_def Let_def emitted_questions_def o_def)
qed

theorem generate_sub_questions_emits_parsed_witness:
  "\<exists>sent batch.
     generate_sub_questions
       (\<lambda>m ms. Inr \<lparr>SubQuestions.questions = [\<lparr>SubQuestion.question = ''What is virtue?''\<rparr>,
                                                \<lparr>SubQuestion.question = ''Is virtue teachable?''\<rparr>]\<rparr>)
       2 ''virtue'' = Inr (sent, batch)
     \<and> int (length sent) = 2
     \<and> emitted_questions sent = [''What is virtue?'', ''Is virtue teachable?'']
     \<and> distinct (emitted_questions sent)"
proof -
  let ?parse = "\<lambda>(m::string) (ms::(string \<times> string) list).
     (Inr \<lparr>SubQuestions.questions = [\<lparr>SubQuestion.question = ''What is virtue?''\<rparr>,
                                      \<lparr>SubQuestion.question = ''Is virtue teachable?''\<rparr>]\<rparr> :: error + SubQuestions)"
  from generate_sub_questions_emits_parsed [of ?parse 2 "''virtue''", OF refl]
  obtain sent batch where
    "generate_sub_questions ?parse 2 ''virtue'' = Inr (sent, batch)"
    "int (length sent) = 2"
    "emitted_questions sent = [''What is virtue?'', ''Is virtue teachable?'']"
    "distinct (emitted_questions sent)"
    by auto
  then show ?thesis by blast
qed

section \<open>Properties of the retrieval step\<close>






text \<open>
  C4: for every \<^verbatim>\<open>SubQuestionsEvent\<close> whose first question is the empty string,
  \<^verbatim>\<open>query_llama_cloud\<close> sends nothing to the retrieval service and returns the canned
  answer with question "Unknown Question" and text "Error: Empty query".
\<close>

theorem query_llama_cloud_empty_query:
  assumes "SubQuestionsEvent.questions ev = sq # rest"
      and "SubQuestion.question sq = []"
  shows "query_llama_cloud engine ev =
           (Inr \<lparr>question = ''Unknown Question'', sub_answer = ''Error: Empty query''\<rparr>, [])"
  using assms by (simp add: query_llama_cloud_def Let_def)

theorem query_llama_cloud_empty_query_witness:
  "query_llama_cloud (\<lambda>q. Inl (Exception ''index unavailable''))
     \<lparr>SubQuestionsEvent.questions = [\<lparr>SubQuestion.question = []\<rparr>]\<rparr>
   = (Inr \<lparr>question = ''Unknown Question'', sub_answer = ''Error: Empty query''\<rparr>, [])"
  using query_llama_cloud_empty_query
    [of "\<lparr>SubQuestionsEvent.questions = [\<lparr>SubQuestion.question = []\<rparr>]\<rparr>"
        "\<lparr>SubQuestion.question = []\<rparr>" "[]" "\<lambda>q. Inl (Exception ''index unavailable'')"]
  by simp

section \<open>Properties of process\_query\<close>

text \<open>
  C7: once the API key is set and both clients are constructed, \<^verbatim>\<open>process_query\<close>
  raises nothing that the run of the workflow raises: it returns the string
  "An error occurred during processing: " followed by the message of the exception;
  when the run succeeds it returns the combined result.
\<close>

theorem process_query_contains_workflow_errors:
  assumes "getenv_api_key sv = Some api_key" and "api_key \<noteq> []"
      and "LlamaCloudIndex sv api_key = Inr ()" and "OpenAI sv = Inr ()"
  shows "process_query sv user_query n =
           (case run_workflow sv n user_query of
              Inr combined_result \<Rightarrow> Inr combined_result
            | Inl e \<Rightarrow> Inr (''An error occurred during processing: '' @ str_error e))"
  using assms by (simp add: process_query_def)

theorem process_query_contains_workflow_errors_witness:
  "process_query
     \<lparr>getenv_api_key = Some ''key'', LlamaCloudIndex = (\<lambda>k. Inr ()), OpenAI = Inr (),
      run_workflow = (\<lambda>n q. Inl (ValueError ''Expected 3 sub-questions, but got 2''))\<rparr>
     ''virtue'' 3
   = Inr ''An error occurred during processing: Expected 3 sub-questions, but got 2''
   \<and> process_query
     \<lparr>getenv_api_key = Some ''key'', LlamaCloudIndex = (\<lambda>k. Inr ()), OpenAI = Inr (),
      run_workflow = (\<lambda>n q. Inr ''Q: a'')\<rparr>
     ''virtue'' 3
   = Inr ''Q: a''"
  using process_query_contains_workflow_errors
    [of "\<lparr>getenv_api_key = Some ''key'', LlamaCloudIndex = (\<lambda>k. Inr ()), OpenAI = Inr (),
          run_workflow = (\<lambda>n q. Inl (ValueError ''Expected 3 sub-questions, but got 2''))\<rparr>"
        "''key''" "''virtue''" 3]
    process_query_contains_workflow_errors
    [of "\<lparr>getenv_api_key = Some ''key'', LlamaCloudIndex = (\<lambda>k. Inr ()), OpenAI = Inr (),
          run_workflow = (\<lambda>n q. Inr ''Q: a'')\<rparr>"
        "''key''" "''virtue''" 3]
  by simp

section \<open>Properties of the answer aggregator\<close>

text \<open>
  A run configured with \<open>n \<le> 0\<close> produces no answer event: a negative \<open>n\<close> never
  passes the count check, and with \<open>n = 0\<close> nothing is sent and the bundled event,
  the only one left for \<^verbatim>\<open>query_llama_cloud\<close>, raises there. The aggregator is
  therefore looked at for \<open>n \<ge> 1\<close>.
\<close>

lemma no_answers_without_questions:
  "(n < 0 \<longrightarrow> generate_sub_questions parse n query \<noteq> Inr out)
   \<and> (n = 0 \<longrightarrow> generate_sub_questions parse n query = Inr (sent, batch) \<longrightarrow>
        sent = [] \<and> query_llama_cloud engine batch = (Inl (IndexError ''list index out of range''), []))"
  by (auto simp: generate_sub_questions_def query_llama_cloud_def Let_def split: sum.splits if_splits)

lemma deliver_Complete: "deliver n Complete evs = replicate (length evs) None"
  by (induction evs) (simp_all add: combine_answers_def)

lemma deliver_Waiting:
  assumes "length buf < nat n"
  shows "deliver n (Waiting buf) evs =
           (if length buf + length evs < nat n then replicate (length evs) None
            else replicate (nat n - length buf - 1) None
                 @ [Some \<lparr>result = combined_answer (buf @ take (nat n - length buf) evs)\<rparr>]
                 @ replicate (length buf + length evs - nat n) None)"
  using assms
proof (induction evs arbitrary: buf)
  case Nil
  then show ?case by simp
next
  case (Cons ev evs)
  show ?case
  proof (cases "Suc (length buf) = nat n")
    case True
    then have "nat n - length buf = Suc 0" by simp
    with True show ?thesis
      by (simp add: combine_answers_def deliver_Complete)
  next
    case False
    with Cons.prems have lt: "length (buf @ [ev]) < nat n" by simp
    have step: "deliver n (Waiting buf) (ev # evs) = None # deliver n (Waiting (buf @ [ev])) evs"
      using False by (simp add: combine_answers_def)
    from lt obtain j where j: "nat n = Suc (Suc (length buf + j))"
      by (metis Suc_lessE add_Suc_right length_append_singleton less_imp_Suc_add)
    show ?thesis
      unfolding step Cons.IH [OF lt] by (simp add: j)
  qed
qed

text \<open>
  C1: with \<open>n \<ge> 1\<close> answers expected, \<^verbatim>\<open>combine_answers\<close> returns nothing for each
  answer while fewer than \<open>n\<close> have arrived, and on the \<open>n\<close>-th answer it returns the
  stop event; the combined text lists the question and answer pairs in arrival order.
  For \<open>n = 3\<close> and answers arriving as C, A, B the text reads C, A, B.
\<close>

theorem combine_answers_waits_for_all:
  assumes "1 \<le> n"
  shows "(int (length evs) < n \<longrightarrow> deliver n (Waiting []) evs = replicate (length evs) None)
       \<and> (int (length evs) = n \<longrightarrow>
            deliver n (Waiting []) evs
              = replicate (length evs - 1) None @ [Some \<lparr>result = combined_answer evs\<rparr>])
       \<and> combined_answer evs
            = py_join [nl, nl] (map (\<lambda>ev. ''Q: '' @ question ev @ [nl] @ ''A: '' @ sub_answer ev) evs)"
proof -
  from assms have "length ([] :: SubAnswerEvent list) < nat n" by simp
  from deliver_Waiting [OF this, of evs] show ?thesis
    by (auto simp: combined_answer_def)
qed

theorem combine_answers_waits_for_all_witness:
  "(1::int) \<le> 3
   \<and> deliver 3 (Waiting []) [\<lparr>question = ''C'', sub_answer = ''c''\<rparr>, \<lparr>question = ''A'', sub_answer = ''a''\<rparr>]
     = [None, None]
   \<and> deliver 3 (Waiting []) [\<lparr>question = ''C'', sub_answer = ''c''\<rparr>, \<lparr>question = ''A'', sub_answer = ''a''\<rparr>,
                             \<lparr>question = ''B'', sub_answer = ''b''\<rparr>]
     = [None, None, Some \<lparr>result = ''Q: C'' @ [nl] @ ''A: c'' @ [nl, nl] @ ''Q: A'' @ [nl] @ ''A: a''
                                     @ [nl, nl] @ ''Q: B'' @ [nl] @ ''A: b''\<rparr>]"
  using combine_answers_waits_for_all
          [of 3 "[\<lparr>question = ''C'', sub_answer = ''c''\<rparr>, \<lparr>question = ''A'', sub_answer = ''a''\<rparr>]"]
        combine_answers_waits_for_all
          [of 3 "[\<lparr>question = ''C'', sub_answer = ''c''\<rparr>, \<lparr>question = ''A'', sub_answer = ''a''\<rparr>,
                  \<lparr>question = ''B'', sub_answer = ''b''\<rparr>]"]
  by (simp add: numeral_3_eq_3)

section \<open>Properties of the polling loop\<close>

lemma poll_loop_pending:
  "\<forall>i<k. pending (generations_get client (gets_made s + i) gid) \<Longrightarrow> k \<le> r \<Longrightarrow>
   poll_loop client gid delay s r =
   poll_loop client gid delay (s\<lparr>gets_made := gets_made s + k, slept := slept s + int k * delay\<rparr>) (r - k)"
proof (induction k arbitrary: s r)
  case 0
  then show ?case by simp
next
  case (Suc k)
  from Suc.prems(2) obtain r' where r: "r = Suc r'" and kr: "k \<le> r'"
    by (cases r) auto
  let ?s = "s\<lparr>gets_made := Suc (gets_made s), slept := slept s + delay\<rparr>"
  from Suc.prems(1) have here: "pending (generations_get client (gets_made s) gid)"
    by (metis add.right_neutral zero_less_Suc)
  have step: "poll_loop client gid delay s (Suc r') = poll_loop client gid delay ?s r'"
  proof (cases "generations_get client (gets_made s) gid")
    case (Inl e)
    then show ?thesis by (simp add: Let_def)
  next
    case (Inr status)
    with here have "state status \<noteq> ''completed''" "state status \<noteq> ''failed''"
      by (simp_all add: pending_def)
    with Inr show ?thesis by (simp add: Let_def)
  qed
  have "\<forall>i<k. pending (generations_get client (gets_made ?s + i) gid)"
    using Suc.prems(1) by (auto dest: spec [of _ "Suc i" for i])
  from Suc.IH [OF this kr] show ?case
    unfolding r step by (simp add: algebra_simps)
qed

text \<open>
  C5: let the first \<open>k\<close> status requests of a job keep \<^verbatim>\<open>poll_generation\<close> polling.
  If \<open>k\<close> is below \<open>max_attempts\<close> and the next request reports "completed", the loop
  returns normally; if it reports "failed", the loop raises on that very request, with
  the failure reason in the message; if \<open>k\<close> requests exhaust \<open>max_attempts\<close>, the
  loop raises "Max attempts reached". In the first case, when the job was created and
  still reports "completed" on the request after the loop, \<^verbatim>\<open>generate_luma_video\<close>
  returns the video asset on its first attempt.
\<close>

theorem poll_generation_outcomes:
  assumes pend: "\<forall>i<k. pending (generations_get client (gets_made s + i) gid)"
  shows "(int k < max_attempts \<and> generations_get client (gets_made s + k) gid = Inr st
            \<and> state st = ''completed''
          \<longrightarrow> poll_generation client gid max_attempts delay s
                = (Inr (), s\<lparr>gets_made := gets_made s + k + 1, slept := slept s + int k * delay\<rparr>))
       \<and> (int k < max_attempts \<and> generations_get client (gets_made s + k) gid = Inr st
            \<and> state st = ''failed''
          \<longrightarrow> poll_generation client gid max_attempts delay s
                = (Inl (Exception (''Generation failed: '' @ failure_reason st)),
                   s\<lparr>gets_made := gets_made s + k + 1, slept := slept s + int k * delay\<rparr>))
       \<and> (k = nat max_attempts
          \<longrightarrow> poll_generation client gid max_attempts delay s
                = (Inl (Exception ''Max attempts reached''),
                   s\<lparr>gets_made := gets_made s + k, slept := slept s + int k * delay\<rparr>))
       \<and> (k < 30 \<and> generations_get client (gets_made s + k) gid = Inr st
            \<and> state st = ''completed''
            \<and> generations_create client (creates_made s)
                 \<lparr>prompt = prompt_arg, frame0_url = keyframes start_image_url, aspect_ratio = aspect\<rparr>
               = Inr gid
            \<and> generations_get client (gets_made s + k + 1) gid = Inr final
            \<and> state final = ''completed''
          \<longrightarrow> generate_luma_video client prompt_arg start_image_url aspect s
                = (Inr (assets_video final),
                   s\<lparr>creates_made := Suc (creates_made s), gets_made := gets_made s + k + 2,
                     slept := slept s + int k * 5\<rparr>))"
proof (intro conjI impI; (elim conjE)?)
  assume k: "int k < max_attempts" and g: "generations_get client (gets_made s + k) gid = Inr st"
     and c: "state st = ''completed''"
  from k obtain m where m: "nat max_attempts - k = Suc m" by (cases "nat max_attempts - k") auto
  from k have "k \<le> nat max_attempts" by simp
  from poll_loop_pending [OF pend this] show
    "poll_generation client gid max_attempts delay s
       = (Inr (), s\<lparr>gets_made := gets_made s + k + 1, slept := slept s + int k * delay\<rparr>)"
    by (simp add: poll_generation_def m g c)
next
  assume k: "int k < max_attempts" and g: "generations_get client (gets_made s + k) gid = Inr st"
     and c: "state st = ''failed''"
  from k obtain m where m: "nat max_attempts - k = Suc m" by (cases "nat max_attempts - k") auto
  from k have "k \<le> nat max_attempts" by simp
  from poll_loop_pending [OF pend this] show
    "poll_generation client gid max_attempts delay s
       = (Inl (Exception (''Generation failed: '' @ failure_reason st)),
          s\<lparr>gets_made := gets_made s + k + 1, slept := slept s + int k * delay\<rparr>)"
    by (simp add: poll_generation_def m g c)
next
  assume k: "k = nat max_attempts"
  then have "k \<le> nat max_attempts" by simp
  from poll_loop_pending [OF pend this] show
    "poll_generation client gid max_attempts delay s
       = (Inl (Exception ''Max attempts reached''),
          s\<lparr>gets_made := gets_made s + k, slept := slept s + int k * delay\<rparr>)"
    by (simp add: poll_generation_def k)
next
  assume k: "k < 30" and g: "generations_get client (gets_made s + k) gid = Inr st"
     and c: "state st = ''completed''"
     and cr: "generations_create client (creates_made s)
                 \<lparr>prompt = prompt_arg, frame0_url = keyframes start_image_url, aspect_ratio = aspect\<rparr>
               = Inr gid"
     and f: "generations_get client (gets_made s + k + 1) gid = Inr final"
     and fc: "state final = ''completed''"
  let ?s1 = "s\<lparr>creates_made := Suc (creates_made s)\<rparr>"
  from k obtain m where m: "nat MAX_ATTEMPTS - k = Suc m"
    by (cases "nat MAX_ATTEMPTS - k") (auto simp: MAX_ATTEMPTS_def)
  from k have le: "k \<le> nat MAX_ATTEMPTS" by (simp add: MAX_ATTEMPTS_def)
  from pend have "\<forall>i<k. pending (generations_get client (gets_made ?s1 + i) gid)" by simp
  from poll_loop_pending [OF this le]
  have poll: "poll_generation client gid MAX_ATTEMPTS POLL_INTERVAL ?s1
       = (Inr (), ?s1\<lparr>gets_made := gets_made s + k + 1, slept := slept s + int k * 5\<rparr>)"
    by (simp add: poll_generation_def m g c POLL_INTERVAL_def)
  from f have f': "generations_get client (Suc (gets_made s + k)) gid = Inr final" by simp
  have body: "generate_luma_video_body client prompt_arg start_image_url aspect s
       = (Inr (assets_video final),
          s\<lparr>creates_made := Suc (creates_made s), gets_made := gets_made s + k + 2,
            slept := slept s + int k * 5\<rparr>)"
    by (simp add: generate_luma_video_body_def Let_def cr poll f' fc)
  show "generate_luma_video client prompt_arg start_image_url aspect s
                = (Inr (assets_video final),
                   s\<lparr>creates_made := Suc (creates_made s), gets_made := gets_made s + k + 2,
                     slept := slept s + int k * 5\<rparr>)"
    by (simp add: generate_luma_video_def body numeral_eq_Suc)
qed


theorem poll_generation_outcomes_witness:
  "poll_generation (mock_job 3 ''completed'') ''gen-1'' 30 5 fresh_state
     = (Inr (), \<lparr>creates_made = 0, gets_made = 4, slept = 15\<rparr>)
   \<and> poll_generation (mock_job 2 ''failed'') ''gen-1'' 30 5 fresh_state
     = (Inl (Exception ''Generation failed: content moderation''),
        \<lparr>creates_made = 0, gets_made = 3, slept = 10\<rparr>)
   \<and> poll_generation (mock_job 30 ''completed'') ''gen-1'' 30 5 fresh_state
     = (Inl (Exception ''Max attempts reached''), \<lparr>creates_made = 0, gets_made = 30, slept = 150\<rparr>)
   \<and> generate_luma_video (mock_job 3 ''completed'') (Some ''a temple'') (Some ''https://cdn/image.png'') ''16:9'' fresh_state
     = (Inr ''https://cdn/video.mp4'', \<lparr>creates_made = 1, gets_made = 5, slept = 15\<rparr>)"
proof -
  have p: "\<forall>i<k. pending (generations_get (mock_job n st) (gets_made fresh_state + i) ''gen-1'')" if "k \<le> n" for k n st
    using that by (simp add: mock_job_def pending_def fresh_state_def)
  have a: "poll_generation (mock_job 3 ''completed'') ''gen-1'' 30 5 fresh_state
     = (Inr (), \<lparr>creates_made = 0, gets_made = 4, slept = 15\<rparr>)"
    using poll_generation_outcomes [OF p [of 3 3 "''completed''"], of 30
            "\<lparr>state = ''completed'', failure_reason = ''content moderation'', assets_video = ''https://cdn/video.mp4''\<rparr>" 5]
    by (simp add: mock_job_def fresh_state_def)
  have b: "poll_generation (mock_job 2 ''failed'') ''gen-1'' 30 5 fresh_state
     = (Inl (Exception ''Generation failed: content moderation''),
        \<lparr>creates_made = 0, gets_made = 3, slept = 10\<rparr>)"
    using poll_generation_outcomes [OF p [of 2 2 "''failed''"], of 30
            "\<lparr>state = ''failed'', failure_reason = ''content moderation'', assets_video = ''https://cdn/video.mp4''\<rparr>" 5]
    by (simp add: mock_job_def fresh_state_def)
  have c: "poll_generation (mock_job 30 ''completed'') ''gen-1'' 30 5 fresh_state
     = (Inl (Exception ''Max attempts reached''), \<lparr>creates_made = 0, gets_made = 30, slept = 150\<rparr>)"
    using poll_generation_outcomes [OF p [of 30 30 "''completed''"], of 30 _ 5]
    by (simp add: mock_job_def fresh_state_def)
  have d: "generate_luma_video (mock_job 3 ''completed'') (Some ''a temple'') (Some ''https://cdn/image.png'') ''16:9'' fresh_state
     = (Inr ''https://cdn/video.mp4'', \<lparr>creates_made = 1, gets_made = 5, slept = 15\<rparr>)"
    using poll_generation_outcomes [OF p [of 3 3 "''completed''"], of _
            "\<lparr>state = ''completed'', failure_reason = ''content moderation'', assets_video = ''https://cdn/video.mp4''\<rparr>" _
            "Some ''a temple''" "Some ''https://cdn/image.png''" "''16:9''"
            "\<lparr>state = ''completed'', failure_reason = ''content moderation'', assets_video = ''https://cdn/video.mp4''\<rparr>"]
    by (simp add: mock_job_def fresh_state_def)
  from a b c d show ?thesis by blast
qed

section \<open>Properties of the combined text\<close>

lemma combined_answer_blocks:
  "combined_answer (map answer_of pairs) = py_join [nl, nl] (map block pairs)"
  by (simp add: combined_answer_def answer_of_def block_def [abs_def] o_def)

lemma split_sep_block:
  "no_blank_line b \<Longrightarrow>
   py_split_sep_from [nl, nl] cur (b @ nl # nl # rest) = (cur @ b) # py_split_sep_from [nl, nl] [] rest"
  by (induction b arbitrary: cur rule: no_blank_line.induct) auto

lemma split_sep_last:
  "no_blank_line b \<Longrightarrow> py_split_sep_from [nl, nl] cur b = [cur @ b]"
  by (induction b arbitrary: cur rule: no_blank_line.induct) auto

lemma split_sep_join:
  "blocks \<noteq> [] \<Longrightarrow> \<forall>b \<in> set blocks. no_blank_line b \<Longrightarrow>
   py_split_sep [nl, nl] (py_join [nl, nl] blocks) = blocks"
proof (induction blocks rule: induct_list012)
  case 1
  then show ?case by simp
next
  case (2 x)
  then show ?case by (simp add: py_split_sep_def split_sep_last)
next
  case (3 x y ys)
  then show ?case by (simp add: py_split_sep_def split_sep_block)
qed

lemma no_blank_line_append:
  "nl \<notin> set xs \<Longrightarrow> no_blank_line (xs @ ys) = no_blank_line ys"
  by (induction xs rule: no_blank_line.induct) (auto simp: neq_Nil_conv elim: no_blank_line.elims)

lemma nl_not_in_markers: "nl \<notin> set ''Q: ''" "nl \<notin> set ''A: ''"
  by (simp_all add: nl_def)

lemma no_blank_line_block:
  assumes "nl \<notin> set (fst p)" and "no_blank_line (snd p)"
  shows "no_blank_line (block p)"
proof -
  have a: "no_blank_line (''A: '' @ snd p)"
    using assms(2) no_blank_line_append [OF nl_not_in_markers(2), of "snd p"] by simp
  have "no_blank_line (nl # ''A: '' @ snd p)"
    using a by (simp add: nl_def)
  moreover have "nl \<notin> set (''Q: '' @ fst p)"
    using assms(1) by (simp add: nl_def)
  ultimately have "no_blank_line ((''Q: '' @ fst p) @ nl # ''A: '' @ snd p)"
    using no_blank_line_append [of "''Q: '' @ fst p" "nl # ''A: '' @ snd p"] by blast
  then show ?thesis by (simp add: block_def)
qed

lemma split_once_first:
  "nl \<notin> set xs \<Longrightarrow>
   py_split_once_from (nl # ''A: '') cur (xs @ nl # ''A: '' @ rest) = Some (cur @ xs, rest)"
  by (induction xs arbitrary: cur) auto

lemma parse_block_block:
  assumes "nl \<notin> set (fst p)"
  shows "parse_block (block p) = Some p"
  using split_once_first [OF assms, of "[]" "snd p"]
  by (simp add: parse_block_def block_def py_split_once_def)

lemma those_map_Some: "\<forall>x \<in> set xs. f (g x) = Some x \<Longrightarrow> those (map f (map g xs)) = Some xs"
  by (induction xs) simp_all

text \<open>
  C6, as stated, lets any list of pairs through the round trip. The combined text does
  not escape its own markers: an answer that contains a blank line followed by a
  \<^verbatim>\<open>"Q: "\<close> block gives the same text as two pairs, so no parser can tell them apart,
  and the parser returns the two pairs.
\<close>

theorem combined_answer_not_injective:
  "combined_answer (map answer_of [(''a'', ''b'' @ [nl, nl] @ ''Q: c'' @ [nl] @ ''A: d'')])
     = combined_answer (map answer_of [(''a'', ''b''), (''c'', ''d'')])
   \<and> parse_combined (combined_answer (map answer_of [(''a'', ''b'' @ [nl, nl] @ ''Q: c'' @ [nl] @ ''A: d'')]))
     = Some [(''a'', ''b''), (''c'', ''d'')]
   \<and> [(''a'', ''b'' @ [nl, nl] @ ''Q: c'' @ [nl] @ ''A: d'')] \<noteq> [(''a'', ''b''), (''c'', ''d'')]"
  by (simp add: combined_answer_def answer_of_def parse_combined_def py_split_sep_def
        parse_block_def py_split_once_def nl_def)

text \<open>
  C6, amended: for every list of pairs in which no question contains a line feed and
  no answer contains two line feeds in a row or ends with a line feed, parsing the
  combined text recovers exactly the pairs supplied, in the same order.
\<close>

theorem parse_combined_roundtrip:
  assumes "\<forall>p \<in> set pairs. nl \<notin> set (fst p) \<and> no_blank_line (snd p)"
  shows "parse_combined (combined_answer (map answer_of pairs)) = Some pairs"
proof (cases pairs)
  case Nil
  then show ?thesis by (simp add: parse_combined_def combined_answer_def)
next
  case (Cons p ps)
  have ne: "py_join [nl, nl] (map block pairs) \<noteq> []"
    unfolding Cons by (cases ps) (simp_all add: block_def)
  have "\<forall>b \<in> set (map block pairs). no_blank_line b"
    using assms by (auto intro: no_blank_line_block)
  moreover have "map block pairs \<noteq> []" by (simp add: Cons)
  ultimately have "py_split_sep [nl, nl] (py_join [nl, nl] (map block pairs)) = map block pairs"
    by (intro split_sep_join)
  moreover have "those (map parse_block (map block pairs)) = Some pairs"
    using assms by (intro those_map_Some) (simp add: parse_block_block)
  ultimately show ?thesis
    using ne by (simp add: parse_combined_def combined_answer_blocks)
qed

theorem parse_combined_roundtrip_witness:
  "parse_combined (combined_answer (map answer_of
      [(''What is virtue?'', ''A habit.'' @ [nl] @ ''A mean.''), (''Is it teachable?'', [])]))
   = Some [(''What is virtue?'', ''A habit.'' @ [nl] @ ''A mean.''), (''Is it teachable?'', [])]"
  using parse_combined_roundtrip
          [of "[(''What is virtue?'', ''A habit.'' @ [nl] @ ''A mean.''), (''Is it teachable?'', [])]"]
  by (simp add: nl_def)

section \<open>Properties of the float operations\<close>

text \<open>
  \<open>binade\<close> computes the binary exponent: it is the one \<open>e\<close> with
  \<open>2\<^sup>e \<le> \<bar>r\<bar> < 2\<^sup>e\<^sup>+\<^sup>1\<close>. The roundings below are the doubles that the divisions
  \<^verbatim>\<open>12.0 / 5\<close>, \<^verbatim>\<open>-5.0 / 5\<close> and \<^verbatim>\<open>5e-324 / 5\<close> give; \<^verbatim>\<open>5e-324\<close> is the least
  positive double, \<open>2\<close> to the power \<open>-1074\<close>.
\<close>

lemma pow2_powi: "pow2 e = 2 powi e"
  by (simp add: pow2_def power_int_def power_one_over)

lemma pow2_less_iff: "pow2 m < pow2 n \<longleftrightarrow> m < n"
proof
  assume "m < n"
  then show "pow2 m < pow2 n"
    unfolding pow2_powi by (intro power_int_strict_increasing) simp_all
next
  assume l: "pow2 m < pow2 n"
  show "m < n"
  proof (rule ccontr)
    assume "\<not> m < n"
    then have "n \<le> m" by simp
    then have "pow2 n \<le> pow2 m"
      unfolding pow2_powi by (intro power_int_increasing) simp_all
    with l show False by simp
  qed
qed

lemma of_int_bitlen_bounds:
  assumes "0 < a"
  shows "pow2 (bitlen a - 1) \<le> of_int a" and "of_int a < pow2 (bitlen a)"
proof -
  from bitlen_bounds [OF assms]
  have lo: "2 ^ nat (bitlen a - 1) \<le> a" and hi: "a < 2 ^ nat (bitlen a)" by simp_all
  have ge1: "1 \<le> bitlen a"
  proof (rule ccontr)
    assume "\<not> 1 \<le> bitlen a"
    then have "nat (bitlen a) = 0" by simp
    with hi assms show False by simp
  qed
  have "(of_int (2 ^ nat (bitlen a - 1)) :: rat) \<le> of_int a"
    using lo by (simp only: of_int_le_iff)
  then show "pow2 (bitlen a - 1) \<le> of_int a"
    using ge1 by (simp add: pow2_def)
  have "(of_int a :: rat) < of_int (2 ^ nat (bitlen a))"
    using hi by (simp only: of_int_less_iff)
  then show "of_int a < pow2 (bitlen a)"
    using ge1 by (simp add: pow2_def)
qed

lemma binade_bounds:
  assumes "r \<noteq> 0"
  shows "pow2 (binade r) \<le> \<bar>r\<bar> \<and> \<bar>r\<bar> < pow2 (binade r + 1)"
proof -
  obtain a b where ab: "quotient_of \<bar>r\<bar> = (a, b)" by force
  have b: "0 < b" by (rule quotient_of_denom_pos [OF ab])
  have r: "\<bar>r\<bar> = of_int a / of_int b" by (rule quotient_of_div [OF ab])
  have a: "0 < a"
  proof -
    from assms have "0 < \<bar>r\<bar>" by simp
    with r b have "0 < (of_int a :: rat)" by (simp add: zero_less_divide_iff)
    then show ?thesis by simp
  qed
  note A = of_int_bitlen_bounds [OF a] and B = of_int_bitlen_bounds [OF b]
  let ?d = "bitlen a - bitlen b"
  have bq: "0 < (of_int b :: rat)" using b by simp
  have up: "\<bar>r\<bar> < pow2 (?d + 1)"
  proof -
    have "of_int a < pow2 (bitlen a)" by (rule A(2))
    also have "pow2 (bitlen a) = pow2 (?d + 1) * pow2 (bitlen b - 1)"
      unfolding pow2_powi by (simp flip: power_int_add)
    also have "\<dots> \<le> pow2 (?d + 1) * of_int b"
      using B(1) by (intro mult_left_mono) (simp_all add: pow2_powi)
    finally show ?thesis using bq by (simp add: r pos_divide_less_eq)
  qed
  have low: "pow2 (?d - 1) < \<bar>r\<bar>"
  proof -
    have "pow2 (?d - 1) * of_int b < pow2 (?d - 1) * pow2 (bitlen b)"
      using B(2) by (intro mult_strict_left_mono) (simp_all add: pow2_powi)
    also have "\<dots> = pow2 (bitlen a - 1)"
      unfolding pow2_powi by (simp flip: power_int_add)
    also have "\<dots> \<le> of_int a" by (rule A(1))
    finally show ?thesis using bq by (simp add: r pos_less_divide_eq)
  qed
  show ?thesis
  proof (cases "pow2 ?d \<le> \<bar>r\<bar>")
    case True
    then have "binade r = ?d" by (simp add: binade_def ab)
    with True up show ?thesis by simp
  next
    case False
    then have "binade r = ?d - 1" by (simp add: binade_def ab)
    with False low show ?thesis by simp
  qed
qed

lemma binade_unique:
  assumes "pow2 e \<le> \<bar>r\<bar>" and "\<bar>r\<bar> < pow2 (e + 1)"
  shows "binade r = e"
proof -
  have "0 < pow2 e" by (simp add: pow2_powi)
  with assms(1) have "r \<noteq> 0" by auto
  from binade_bounds [OF this] assms
  have "pow2 (binade r) < pow2 (e + 1)" "pow2 e < pow2 (binade r + 1)" by simp_all
  then show ?thesis by (simp add: pow2_less_iff)
qed

lemma binade_twelve_fifths: "binade (12 / 5) = 1"
  by (rule binade_unique) (simp_all add: pow2_def)

lemma pow2_add: "pow2 (m + n) = pow2 m * pow2 n"
  unfolding pow2_powi by (simp add: power_int_add)

lemma pow2_pos: "0 < pow2 e"
  by (simp add: pow2_powi)

lemma binade_scale:
  assumes "r \<noteq> 0"
  shows "binade (pow2 k * r) = k + binade r"
proof (rule binade_unique)
  from binade_bounds [OF assms]
  have lo: "pow2 (binade r) \<le> \<bar>r\<bar>" and hi: "\<bar>r\<bar> < pow2 (binade r + 1)" by simp_all
  have abs: "\<bar>pow2 k * r\<bar> = pow2 k * \<bar>r\<bar>"
    using pow2_pos [of k] by (simp add: abs_mult)
  show "pow2 (k + binade r) \<le> \<bar>pow2 k * r\<bar>"
    unfolding abs pow2_add using lo pow2_pos [of k] by (intro mult_left_mono) simp_all
  have "pow2 k * \<bar>r\<bar> < pow2 k * pow2 (binade r + 1)"
    using hi pow2_pos [of k] by (intro mult_strict_left_mono)
  then show "\<bar>pow2 k * r\<bar> < pow2 (k + binade r + 1)"
    unfolding abs by (simp add: pow2_add mult.assoc)
qed

lemma binade_fifth: "binade (1 / 5) = - 3"
  by (rule binade_unique) (simp_all add: pow2_def)

lemma binade_fifth_of_least: "binade (pow2 (- 1074) / 5) = - 1077"
  using binade_scale [of "1 / 5" "- 1074"] by (simp add: binade_fifth)


lemma round_to_double_fifth_of_least:
  "round_to_double (pow2 (- 1074) / 5) = Finite 0"
proof -
  have q: "(pow2 (- 1074) / 5) / pow2 (max (- 1077) (- 1022) - 52) = 1 / 5"
    using pow2_pos [of "- 1074"] by simp
  have h: "round_half_even (1 / 5) = 0" by code_simp
  have n: "pow2 (- 1074) / 5 \<noteq> 0" using pow2_pos [of "- 1074"] by simp
  have z: "\<not> pow2 1024 \<le> 0" using pow2_pos [of 1024] by simp
  show ?thesis
    unfolding round_to_double_def Let_def binade_fifth_of_least q h using n z by simp
qed

lemma round_to_double_twelve_fifths:
  "round_to_double (12 / 5) = Finite (5404319552844595 / 2251799813685248)"
proof -
  have h: "round_half_even (27021597764222976 / 5) = 5404319552844595" by code_simp
  have q: "(12 / 5) / pow2 (max 1 (- 1022) - 52) = 27021597764222976 / 5"
    by (simp add: pow2_def)
  have p: "pow2 1024 = 2 ^ 1024" by (simp add: pow2_def)
  show ?thesis
    unfolding round_to_double_def Let_def binade_twelve_fifths q h p by (simp add: pow2_def)
qed

lemma binade_minus_one: "binade (- 1) = 0"
  by (rule binade_unique) (simp_all add: pow2_def)

lemma round_to_double_minus_one: "round_to_double (- 1) = Finite (- 1)"
proof -
  have h: "round_half_even (- 4503599627370496) = - 4503599627370496" by code_simp
  have q: "(- 1) / pow2 (max 0 (- 1022) - 52) = - 4503599627370496"
    by (simp add: pow2_def)
  have p: "pow2 1024 = 2 ^ 1024" by (simp add: pow2_def)
  show ?thesis
    unfolding round_to_double_def Let_def binade_minus_one q h p by (simp add: pow2_def)
qed

section \<open>Properties of the main-video pipeline\<close>

lemma extract_loop_length:
  "extract_loop parse idx parts acc = Inr r \<Longrightarrow> length r = length acc + length parts"
proof (induction parts arbitrary: idx acc)
  case Nil
  then show ?case by simp
next
  case (Cons part parts)
  then show ?case by (auto split: sum.splits)
qed

lemma extract_descriptions_count:
  assumes "1 \<le> num_images"
      and "extract_descriptions client script num_images = Inr analysis"
  shows "int (length (scenes analysis)) = num_images"
proof -
  from split_script_parts [OF assms(1), of script] assms(1) obtain parts where
    p: "split_script script num_images = Inr parts" "int (length parts) = num_images"
    by simp
  from assms(2) p(1) obtain parse r where
    r: "extract_loop parse 0 parts [] = Inr r" "analysis = \<lparr>scenes = r\<rparr>"
    by (auto simp: extract_descriptions_def split: sum.splits)
  from extract_loop_length [OF r(1)] p(2) r(2) show ?thesis by simp
qed

text \<open>
  C9: the expected number of scenes is \<^verbatim>\<open>math.ceil(audio_duration / 5)\<close>, the ceiling
  of the duration divided by 5 as a double. Whenever the script analysis returns a
  number of scenes other than that, \<^verbatim>\<open>process_main_video\<close> raises the descriptive
  scene-count error and so returns no path of a final video. Whenever the expected
  number is at least one, the analysis has exactly that many scenes, and the run goes
  on to render exactly them.
\<close>

theorem process_main_video_scene_count:
  assumes "generate_and_save_audio sv script = Inr audio_url"
      and "download_file sv audio_url = Inr ()"
      and "get_audio_duration sv = Inr audio_duration"
      and "float_div audio_duration (Finite 5) = Inr fifth"
      and "math_ceil fifth = Inr num_images"
      and "extract_descriptions (scene_client sv) script num_images = Inr analysis"
  shows "(audio_duration = Finite x \<longrightarrow> fifth = round_to_double (x / 5))
       \<and> (fifth = Finite y \<longrightarrow> num_images = \<lceil>y\<rceil>)
       \<and> (int (length (scenes analysis)) \<noteq> num_images \<longrightarrow>
            process_main_video sv script
              = Inl (Exception (''Number of scenes ('' @ str_int (int (length (scenes analysis)))
                                @ '') does not match the expected number of images (''
                                @ str_int num_images @ '')''))
            \<and> (\<forall>final_video_path. process_main_video sv script \<noteq> Inr final_video_path))
       \<and> (1 \<le> num_images \<longrightarrow>
            int (length (scenes analysis)) = num_images
            \<and> process_main_video sv script = render_scenes sv (scenes analysis))"
proof (intro conjI impI)
  assume "audio_duration = Finite x"
  with assms(4) show "fifth = round_to_double (x / 5)"
    by (simp add: float_div_def)
next
  assume "fifth = Finite y"
  with assms(5) show "num_images = \<lceil>y\<rceil>"
    by (simp add: math_ceil_def)
next
  assume "int (length (scenes analysis)) \<noteq> num_images"
  with assms show "process_main_video sv script
              = Inl (Exception (''Number of scenes ('' @ str_int (int (length (scenes analysis)))
                                @ '') does not match the expected number of images (''
                                @ str_int num_images @ '')''))"
    by (simp add: process_main_video_def scene_mismatch_def)
  then show "\<forall>final_video_path. process_main_video sv script \<noteq> Inr final_video_path"
    by simp
next
  assume "1 \<le> num_images"
  then show len: "int (length (scenes analysis)) = num_images"
    using assms(6) by (rule extract_descriptions_count)
  with assms show "process_main_video sv script = render_scenes sv (scenes analysis)"
    by (simp add: process_main_video_def)
qed

theorem process_main_video_scene_count_witness:
  "process_main_video (silent_services (Finite 12)) ''know thyself and nothing in excess''
     = Inr ''data/final_video/final_3.mp4''
   \<and> process_main_video (silent_services (Finite (- 5))) ''know thyself''
     = Inl (Exception ''Number of scenes (0) does not match the expected number of images (-1)'')"
proof -
  let ?scene = "\<lparr>image_description = ''a temple'', video_description = ''slow pan''\<rparr>"
  have s0: "str_int 0 = ''0''" and s1: "str_int (- 1) = ''-1''" and s3: "str_int 3 = ''3''"
    by code_simp+
  have d12: "float_div (Finite 12) (Finite 5) = Inr (Finite (5404319552844595 / 2251799813685248))"
    by (simp add: float_div_def round_to_double_twelve_fifths)
  have c12: "math_ceil (Finite (5404319552844595 / 2251799813685248)) = Inr 3"
    by (simp add: math_ceil_def ceiling_eq_iff)
  have e12: "extract_descriptions (scene_client (silent_services (Finite 12)))
               ''know thyself and nothing in excess'' 3 = Inr \<lparr>scenes = [?scene, ?scene, ?scene]\<rparr>"
    by (simp add: extract_descriptions_def silent_services_def split_script_def py_range_def Let_def
          numeral_eq_Suc)
  have a: "process_main_video (silent_services (Finite 12)) ''know thyself and nothing in excess''
             = Inr ''data/final_video/final_3.mp4''"
    using process_main_video_scene_count
            [of "silent_services (Finite 12)" "''know thyself and nothing in excess''"
                "''https://cdn/audio.mp3''" "Finite 12" "Finite (5404319552844595 / 2251799813685248)" 3
                "\<lparr>scenes = [?scene, ?scene, ?scene]\<rparr>", OF _ _ _ d12 c12 e12]
    by (simp add: silent_services_def s3)
  have dm: "float_div (Finite (- 5)) (Finite 5) = Inr (Finite (- 1))"
    by (simp add: float_div_def round_to_double_minus_one)
  have cm: "math_ceil (Finite (- 1)) = Inr (- 1)"
    by (simp add: math_ceil_def ceiling_minus)
  have em: "extract_descriptions (scene_client (silent_services (Finite (- 5)))) ''know thyself'' (- 1)
              = Inr \<lparr>scenes = []\<rparr>"
    by (simp add: extract_descriptions_def silent_services_def split_script_def py_range_def Let_def)
  have b: "process_main_video (silent_services (Finite (- 5))) ''know thyself''
             = Inl (Exception ''Number of scenes (0) does not match the expected number of images (-1)'')"
    using process_main_video_scene_count
            [of "silent_services (Finite (- 5))" "''know thyself''" "''https://cdn/audio.mp3''"
                "Finite (- 5)" "Finite (- 1)" "- 1" "\<lparr>scenes = []\<rparr>", OF _ _ _ dm cm em]
    by (simp add: silent_services_def s0 s1)
  from a b show ?thesis by blast
qed

text \<open>
  A duration of zero gives an expected number of zero, and \<^verbatim>\<open>split_script\<close> raises on
  the division by it; the scene-count check is not reached.
\<close>

lemma process_main_video_zero_seconds:
  "process_main_video (silent_services (Finite 0)) ''know thyself''
     = Inl (ZeroDivisionError ''integer division or modulo by zero'')"
  by (simp add: process_main_video_def silent_services_def extract_descriptions_def split_script_def
        float_div_def round_to_double_def math_ceil_def Let_def)

text \<open>
  So does the least positive duration: a fifth of it rounds to zero as a double.
\<close>

lemma process_main_video_least_duration:
  "process_main_video (silent_services (Finite (pow2 (- 1074)))) ''know thyself''
     = Inl (ZeroDivisionError ''integer division or modulo by zero'')"
proof -
  have n: "(5 :: rat) \<noteq> 0" by simp
  show ?thesis
    using n
    by (simp add: process_main_video_def silent_services_def extract_descriptions_def
          split_script_def float_div_def round_to_double_fifth_of_least math_ceil_def Let_def)
qed

end
